theory Spec2Isabelle
  imports Main "HOL-Library.Sublist" "HOL-Library.AList"
begin

section \<open>JSON values as Python sees them\<close>

text \<open>
  The values that \<^verbatim>\<open>response.json()\<close> hands to the program. A Python \<^verbatim>\<open>dict\<close>
  keeps its keys in insertion order, so an object is an association list (its keys are
  distinct in every value that comes out of a JSON parser). A float is carried as the
  text Python prints for it; floating-point arithmetic is not part of this development.
\<close>

datatype json =
    JNull
  | JBool bool
  | JInt int
  | JFloat string
  | JStr string
  | JList "json list"
  | JDict "(string \<times> json) list"

text \<open>Python truthiness: what \<^verbatim>\<open>if not items\<close> and \<^verbatim>\<open>repo.get('description')\<close> test.\<close>

fun truthy :: "json \<Rightarrow> bool" where
  "truthy JNull = False"
| "truthy (JBool b) = b"
| "truthy (JInt i) = (i \<noteq> 0)"
| "truthy (JFloat r) = (r \<noteq> ''0.0'' \<and> r \<noteq> ''-0.0'')"
| "truthy (JStr s) = (s \<noteq> [])"
| "truthy (JList xs) = (xs \<noteq> [])"
| "truthy (JDict kvs) = (kvs \<noteq> [])"

text \<open>
  What \<^verbatim>\<open>results.extend(items)\<close> appends: the elements of a list, the keys of a dict,
  the characters of a string; anything else is not iterable (\<^verbatim>\<open>TypeError\<close>, here
  \<open>None\<close>) and leaves the list as it was.
\<close>

fun py_iter :: "json \<Rightarrow> json list option" where
  "py_iter (JList xs) = Some xs"
| "py_iter (JDict kvs) = Some (map (\<lambda>kv. JStr (fst kv)) kvs)"
| "py_iter (JStr s) = Some (map (\<lambda>c. JStr [c]) s)"
| "py_iter JNull = None"
| "py_iter (JBool b) = None"
| "py_iter (JInt i) = None"
| "py_iter (JFloat r) = None"

text \<open>\<^verbatim>\<open>d.get(key, default)\<close> on a dict.\<close>

definition dict_get :: "(string \<times> json) list \<Rightarrow> string \<Rightarrow> json \<Rightarrow> json" where
  "dict_get kvs k dflt = (case map_of kvs k of None \<Rightarrow> dflt | Some v \<Rightarrow> v)"

text \<open>The slice \<^verbatim>\<open>xs[:n]\<close> for a Python int \<open>n\<close>; a negative \<open>n\<close> counts from the end.\<close>

definition py_slice_to :: "'a list \<Rightarrow> int \<Rightarrow> 'a list" where
  "py_slice_to xs n =
     (if 0 \<le> n then take (nat n) xs else take (length xs - nat (- n)) xs)"

section \<open>The page fetcher and the pagination loop\<close>

text \<open>
  What one \<^verbatim>\<open>session.get(base_url, headers=headers, params=params)\<close> does is not
  decided by this program: it either raises (connection error, timeout, the retry
  adapter giving up) or returns a response with a status code and a body. The body is
  \<open>None\<close> when \<^verbatim>\<open>response.json()\<close> raises.
\<close>

datatype get_outcome =
    GetRaises
  | Response nat "json option"

text \<open>
  The loop is stated for any behaviour of \<^verbatim>\<open>session.get\<close>: \<open>fetch p k\<close> is what the
  \<open>k\<close>-th call (from 0) for page \<open>p\<close> does. Pages are asked for in increasing order,
  one block of calls each, so this describes any behaviour in one run. What the calls do
  through the session that \<^verbatim>\<open>search_github\<close> builds is \<open>session_get\<close> below.
\<close>

type_synonym fetcher = "nat \<Rightarrow> nat \<Rightarrow> get_outcome"

text \<open>How one pass through the \<^verbatim>\<open>try\<close> statement of \<^verbatim>\<open>fetch_results\<close> ends.\<close>

datatype page_result =
    Items "json list"
  | Exhausted
  | RateLimited
  | Terminal

text \<open>
  \<^verbatim>\<open>response.raise_for_status()\<close> raises \<^verbatim>\<open>HTTPError\<close> for a status from 400 to 599.
\<close>

definition raise_for_status :: "nat \<Rightarrow> bool" where
  "raise_for_status status = (400 \<le> status \<and> status < 600)"

text \<open>
  The \<^verbatim>\<open>try\<close> block with its two handlers, up to the point where the state changes:
  \<^item> \<^verbatim>\<open>session.get\<close> raises: \<^verbatim>\<open>except Exception\<close>, \<^verbatim>\<open>break\<close>;
  \<^item> \<^verbatim>\<open>raise_for_status\<close> raises: \<^verbatim>\<open>except HTTPError\<close>; status 403 waits, any other
    status breaks;
  \<^item> \<^verbatim>\<open>response.json()\<close> raises, or its value has no \<^verbatim>\<open>get\<close> (it is not a dict):
    \<^verbatim>\<open>except Exception\<close>, \<^verbatim>\<open>break\<close>;
  \<^item> \<^verbatim>\<open>items\<close> is falsy: \<^verbatim>\<open>break\<close>;
  \<^item> \<^verbatim>\<open>results.extend(items)\<close> raises on a value that is not iterable:
    \<^verbatim>\<open>except Exception\<close>, \<^verbatim>\<open>break\<close>.
\<close>

definition try_block :: "get_outcome \<Rightarrow> page_result" where
  "try_block out =
     (case out of
        GetRaises \<Rightarrow> Terminal
      | Response status body \<Rightarrow>
          if raise_for_status status then
            (if status = 403 then RateLimited else Terminal)
          else
            (case body of
               None \<Rightarrow> Terminal
             | Some (JDict kvs) \<Rightarrow>
                 (let items = dict_get kvs ''items'' (JList []) in
                  if \<not> truthy items then Exhausted
                  else (case py_iter items of
                          None \<Rightarrow> Terminal
                        | Some xs \<Rightarrow> Items xs))
             | Some _ \<Rightarrow> Terminal))"

text \<open>
  What the loop does that can be observed from outside: a request for a page, recorded
  with how it ended, and a call of \<^verbatim>\<open>sleep\<close> with its argument.
\<close>

datatype event =
    Get nat page_result
  | Sleep nat

text \<open>
  The loop's variables, with the number of requests already made for the current page
  and the events so far, oldest first.
\<close>

record loop_state =
  results :: "json list"
  page :: nat
  attempt :: nat
  trace :: "event list"

text \<open>
  One pass through the body of \<^verbatim>\<open>while len(results) < num_results\<close>. The first
  component says whether the loop goes on (\<open>False\<close> is \<^verbatim>\<open>break\<close>).
\<close>

definition loop_body :: "fetcher \<Rightarrow> loop_state \<Rightarrow> bool \<times> loop_state" where
  "loop_body fetch s =
     (case try_block (fetch (page s) (attempt s)) of
        Items items \<Rightarrow>
          (True, \<lparr>results = results s @ items, page = page s + 1, attempt = 0,
                  trace = trace s @ [Get (page s) (Items items), Sleep 1]\<rparr>)
      | Exhausted \<Rightarrow>
          (False, \<lparr>results = results s, page = page s, attempt = attempt s + 1,
                   trace = trace s @ [Get (page s) Exhausted]\<rparr>)
      | RateLimited \<Rightarrow>
          (True, \<lparr>results = results s, page = page s, attempt = attempt s + 1,
                  trace = trace s @ [Get (page s) RateLimited, Sleep 60]\<rparr>)
      | Terminal \<Rightarrow>
          (False, \<lparr>results = results s, page = page s, attempt = attempt s + 1,
                   trace = trace s @ [Get (page s) Terminal]\<rparr>))"

text \<open>
  The loop. It need not end, so it is a partial function: \<open>None\<close> is a run that never
  leaves the loop.
\<close>

partial_function (option) fetch_loop :: "fetcher \<Rightarrow> int \<Rightarrow> loop_state \<Rightarrow> loop_state option" where
  "fetch_loop fetch num_results s =
     (if int (length (results s)) < num_results then
        (case loop_body fetch s of
           (again, s') \<Rightarrow> if again then fetch_loop fetch num_results s' else Some s')
      else Some s)"

declare fetch_loop.simps [code]

definition init_state :: loop_state where
  "init_state = \<lparr>results = [], page = 1, attempt = 0, trace = []\<rparr>"

text \<open>The loop run from \<^verbatim>\<open>results = []\<close>, \<^verbatim>\<open>page = 1\<close>: the state in which it ends.\<close>

definition fetch_run :: "fetcher \<Rightarrow> int \<Rightarrow> loop_state option" where
  "fetch_run fetch num_results = fetch_loop fetch num_results init_state"

text \<open>\<^verbatim>\<open>fetch_results\<close>: what the caller gets, \<^verbatim>\<open>results[:num_results]\<close>.\<close>

definition fetch_results :: "fetcher \<Rightarrow> int \<Rightarrow> json list option" where
  "fetch_results fetch num_results =
     (case fetch_run fetch num_results of
        None \<Rightarrow> None
      | Some s \<Rightarrow> Some (py_slice_to (results s) num_results))"

section \<open>The session that \<^verbatim>\<open>search_github\<close> builds\<close>

text \<open>
  \<^verbatim>\<open>search_github\<close> mounts on \<^verbatim>\<open>https://\<close> an adapter with
  \<^verbatim>\<open>Retry(total=5, backoff_factor=1, status_forcelist=[403, 500, 502, 503, 504])\<close>, and
  \<^verbatim>\<open>base_url\<close> is an \<^verbatim>\<open>https\<close> address. One call of \<^verbatim>\<open>session.get\<close> then makes up to
  six tries. What one try meets is not decided by this program: no response comes (the
  connection fails or times out), or a response comes with a status and a body.
\<close>

datatype wire =
    NoResponse
  | Status nat "json option"

definition status_forcelist :: "nat list" where
  "status_forcelist = [403, 500, 502, 503, 504]"

text \<open>
  The adapter with \<open>left\<close> retries left, at try \<open>j\<close> of the call. A try without a
  response and a response whose status is in the list are tried again while retries are
  left. When none is left the call raises: \<^verbatim>\<open>RetryError\<close> for a listed status
  (\<^verbatim>\<open>raise_on_status\<close> keeps its default, so the response is not handed back), a
  connection error otherwise. A response with any other status is returned. The waits
  between the tries are the adapter's own and no calls of \<^verbatim>\<open>sleep\<close> in this program.
\<close>

fun retry :: "(nat \<Rightarrow> wire) \<Rightarrow> nat \<Rightarrow> nat \<Rightarrow> get_outcome" where
  "retry answers 0 j =
     (case answers j of
        NoResponse \<Rightarrow> GetRaises
      | Status status body \<Rightarrow>
          if status \<in> set status_forcelist then GetRaises else Response status body)"
| "retry answers (Suc left) j =
     (case answers j of
        NoResponse \<Rightarrow> retry answers left (Suc j)
      | Status status body \<Rightarrow>
          if status \<in> set status_forcelist then retry answers left (Suc j)
          else Response status body)"

text \<open>
  The remote side: \<open>remote p k j\<close> is what try \<open>j\<close> of the \<open>k\<close>-th call of
  \<^verbatim>\<open>session.get\<close> for page \<open>p\<close> meets. \<open>session_get remote\<close> is what the calls of
  \<^verbatim>\<open>session.get\<close> in \<^verbatim>\<open>fetch_results\<close> do against it, with \<^verbatim>\<open>total=5\<close>.
\<close>

type_synonym remote = "nat \<Rightarrow> nat \<Rightarrow> nat \<Rightarrow> wire"

definition session_get :: "remote \<Rightarrow> fetcher" where
  "session_get remote p k = retry (remote p k) 5 0"

section \<open>What a run shows\<close>

text \<open>
  The records of the pages that were fetched with success, in the order of the requests:
  what the remote side ranked, as far as the run has seen it.
\<close>

fun fetched_items :: "event list \<Rightarrow> json list" where
  "fetched_items [] = []"
| "fetched_items (Get p (Items xs) # es) = xs @ fetched_items es"
| "fetched_items (e # es) = fetched_items es"

text \<open>
  \<^verbatim>\<open>session.get\<close> hands back a response with status 403: the one case in which the
  loop waits and asks again. A status 403 that the adapter retries until it gives up is
  not this case: it reaches the loop as \<open>GetRaises\<close>.
\<close>

fun returns_403 :: "get_outcome \<Rightarrow> bool" where
  "returns_403 (Response status body) = (status = 403)"
| "returns_403 GetRaises = False"



section \<open>The exporters\<close>

text \<open>The exceptions that leave an exporter.\<close>

datatype py_error =
    AttributeError
  | TypeError
  | LangDetectException

text \<open>
  What the exporters use and this program does not decide:
  \<^item> \<^verbatim>\<open>TRANSLATION_AVAILABLE\<close>, set when the module is loaded;
  \<^item> \<^verbatim>\<open>langdetect.detect\<close> on a string: a language tag, or \<open>None\<close> when it raises;
  \<^item> the translation service behind \<^verbatim>\<open>translate_text\<close>: the value of
    \<^verbatim>\<open>response.json()['translatedText']\<close>, or \<open>None\<close> when anything in the
    \<^verbatim>\<open>try\<close> block raises.
\<close>

record environment =
  translation_available :: bool
  detect :: "string \<Rightarrow> string option"
  post_translate :: "json \<Rightarrow> json option"

text \<open>
  \<^verbatim>\<open>detect(repo['description']) if TRANSLATION_AVAILABLE else 'en'\<close>. The detector
  takes text: on a value that is not a string it raises \<^verbatim>\<open>TypeError\<close>.
\<close>

definition detect_lang :: "environment \<Rightarrow> json \<Rightarrow> py_error + string" where
  "detect_lang env description =
     (if translation_available env then
        (case description of
           JStr s \<Rightarrow> (case detect env s of
                        None \<Rightarrow> Inl LangDetectException
                      | Some lang \<Rightarrow> Inr lang)
         | _ \<Rightarrow> Inl TypeError)
      else Inr ''en'')"

definition translate_text :: "environment \<Rightarrow> json \<Rightarrow> json" where
  "translate_text env text =
     (if \<not> translation_available env then text
      else (case post_translate env text of
              None \<Rightarrow> text
            | Some translated \<Rightarrow> translated))"

text \<open>A \<^verbatim>\<open>for\<close> loop over a list whose body may raise: the first exception ends it.\<close>

fun for_each :: "('a \<Rightarrow> py_error + 'b) \<Rightarrow> 'a list \<Rightarrow> py_error + 'b list" where
  "for_each f [] = Inr []"
| "for_each f (x # xs) =
     (case f x of
        Inl e \<Rightarrow> Inl e
      | Inr y \<Rightarrow> (case for_each f xs of
                    Inl e \<Rightarrow> Inl e
                  | Inr ys \<Rightarrow> Inr (y # ys)))"

subsection \<open>JSON\<close>

text \<open>
  The body of the loop of \<^verbatim>\<open>save_to_json\<close> on one record. \<^verbatim>\<open>repo.get\<close> exists on
  a dict only, and is called only when \<^verbatim>\<open>translate\<close> holds. An assignment to a key
  of a dict replaces the value in place or adds the key at the end.
\<close>

definition enrich_json :: "environment \<Rightarrow> bool \<Rightarrow> json \<Rightarrow> py_error + json" where
  "enrich_json env translate repo =
     (if \<not> translate then Inr repo
      else (case repo of
              JDict kvs \<Rightarrow>
                (if truthy (dict_get kvs ''description'' JNull) then
                   (case detect_lang env (dict_get kvs ''description'' JNull) of
                      Inl e \<Rightarrow> Inl e
                    | Inr lang \<Rightarrow>
                        if lang \<notin> set [''en'', ''ar''] then
                          Inr (JDict (AList.update ''description_translated''
                                 (translate_text env (dict_get kvs ''description'' JNull)) kvs))
                        else
                          Inr (JDict (AList.update ''description_translated'' (JStr []) kvs)))
                 else Inr repo)
            | _ \<Rightarrow> Inl AttributeError))"

text \<open>
  \<^verbatim>\<open>save_to_json\<close>: the records as they are handed to \<^verbatim>\<open>json.dump\<close>. How
  \<^verbatim>\<open>json.dump\<close> lays them out as text is the library's matter.
\<close>

definition save_to_json :: "environment \<Rightarrow> json list \<Rightarrow> bool \<Rightarrow> py_error + json list" where
  "save_to_json env data translate = for_each (enrich_json env translate) data"

subsection \<open>CSV and TSV\<close>

definition fieldnames :: "string list" where
  "fieldnames =
     [''name'', ''full_name'', ''html_url'', ''description'', ''description_translated'',
      ''stargazers_count'', ''watchers_count'', ''forks_count'',
      ''language'', ''license'', ''updated_at'']"

text \<open>
  What \<^verbatim>\<open>csv.DictWriter\<close> is given: the delimiter, the header written by
  \<^verbatim>\<open>writeheader\<close>, and for each \<^verbatim>\<open>writerow\<close> the values of the row in the order of
  the field names. The writer prints \<^verbatim>\<open>None\<close> as the empty text and any other value
  with \<^verbatim>\<open>str\<close>; its quoting is the library's matter.
\<close>

record csv_file =
  delimiter :: char
  header :: "string list"
  rows :: "json list list"

text \<open>\<^verbatim>\<open>writer.writerow(row)\<close>: \<^verbatim>\<open>row.get(field, '')\<close> for each field name in order.\<close>

definition writerow :: "(string \<times> json) list \<Rightarrow> json list" where
  "writerow row = map (\<lambda>field. dict_get row field (JStr [])) fieldnames"

text \<open>The body of the loop of \<^verbatim>\<open>save_to_csv\<close> on one record.\<close>

definition csv_row :: "environment \<Rightarrow> bool \<Rightarrow> json \<Rightarrow> py_error + json list" where
  "csv_row env translate repo =
     (case repo of
        JDict kvs \<Rightarrow>
          (let row = map (\<lambda>field. (field, dict_get kvs field (JStr []))) fieldnames in
           case (if map_of kvs ''license'' \<noteq> None \<and> truthy (dict_get kvs ''license'' JNull) then
                   (case dict_get kvs ''license'' JNull of
                      JDict license \<Rightarrow>
                        Inr (AList.update ''license'' (dict_get license ''name'' (JStr [])) row)
                    | _ \<Rightarrow> Inl AttributeError)
                 else Inr row) of
             Inl e \<Rightarrow> Inl e
           | Inr row \<Rightarrow>
               (if translate \<and> truthy (dict_get kvs ''description'' JNull) then
                  (case detect_lang env (dict_get kvs ''description'' JNull) of
                     Inl e \<Rightarrow> Inl e
                   | Inr lang \<Rightarrow>
                       if lang \<notin> set [''en'', ''ar''] then
                         Inr (writerow (AList.update ''description_translated''
                                (translate_text env (dict_get kvs ''description'' JNull)) row))
                       else
                         Inr (writerow (AList.update ''description_translated'' (JStr []) row)))
                else Inr (writerow row)))
      | _ \<Rightarrow> Inl AttributeError)"



text \<open>The value of a field in a row that was written.\<close>

definition cell :: "json list \<Rightarrow> string \<Rightarrow> json option" where
  "cell row field = map_of (zip fieldnames row) field"

subsection \<open>XML\<close>

text \<open>
  An element of the tree built with \<^verbatim>\<open>ET.Element\<close> and \<^verbatim>\<open>ET.SubElement\<close>: its tag,
  the object assigned to \<^verbatim>\<open>text\<close> (\<^verbatim>\<open>None\<close> when nothing was assigned) and its
  children in order.
\<close>

datatype xml = Element string json "xml list"

fun tag_of :: "xml \<Rightarrow> string" where
  "tag_of (Element t x cs) = t"

text \<open>
  \<^verbatim>\<open>str(value)\<close> for a value that is not a dict or a list. \<^verbatim>\<open>save_to_xml\<close> skips
  dicts and lists before it calls \<^verbatim>\<open>str\<close>, so their text is left out here.
\<close>

fun digits :: "nat \<Rightarrow> string" where
  "digits n =
     (if n < 10 then [char_of (48 + n)]
      else digits (n div 10) @ [char_of (48 + n mod 10)])"

declare digits.simps [simp del]

fun py_str :: "json \<Rightarrow> string" where
  "py_str JNull = ''None''"
| "py_str (JBool b) = (if b then ''True'' else ''False'')"
| "py_str (JInt i) = (if i < 0 then CHR ''-'' # digits (nat (- i)) else digits (nat i))"
| "py_str (JFloat r) = r"
| "py_str (JStr s) = s"

text \<open>\<^verbatim>\<open>isinstance(value, (dict, list))\<close>\<close>

fun is_container :: "json \<Rightarrow> bool" where
  "is_container (JDict kvs) = True"
| "is_container (JList xs) = True"
| "is_container v = False"

text \<open>
  The body of the inner loop of \<^verbatim>\<open>save_to_xml\<close> on one item \<open>(key, value)\<close> of the
  record \<open>repo\<close>: the children it adds to the element of the record.
\<close>

definition xml_field ::
  "environment \<Rightarrow> bool \<Rightarrow> (string \<times> json) list \<Rightarrow> string \<times> json \<Rightarrow> py_error + xml list" where
  "xml_field env translate repo item =
     (case item of (key, val) \<Rightarrow>
        if key \<in> set [''owner'', ''license''] then Inr []
        else if is_container val then Inr []
        else if key = ''description'' \<and> translate \<and> truthy (dict_get repo ''description'' JNull) then
          (case detect_lang env (dict_get repo ''description'' JNull) of
             Inl e \<Rightarrow> Inl e
           | Inr lang \<Rightarrow>
               if lang \<notin> set [''en'', ''ar''] then
                 Inr [Element ''description'' val [],
                      Element ''description_translated''
                        (translate_text env (dict_get repo ''description'' JNull)) []]
               else Inr [Element key (JStr (py_str val)) []])
        else Inr [Element key (JStr (py_str val)) []])"

text \<open>The element of one record; \<^verbatim>\<open>repo.items()\<close> exists on a dict only.\<close>

definition xml_repository :: "environment \<Rightarrow> bool \<Rightarrow> json \<Rightarrow> py_error + xml" where
  "xml_repository env translate repo =
     (case repo of
        JDict kvs \<Rightarrow>
          (case for_each (xml_field env translate kvs) kvs of
             Inl e \<Rightarrow> Inl e
           | Inr added \<Rightarrow> Inr (Element ''repository'' JNull (concat added)))
      | _ \<Rightarrow> Inl AttributeError)"

text \<open>\<^verbatim>\<open>save_to_xml\<close>: the tree handed to \<^verbatim>\<open>tree.write\<close>.\<close>

definition save_to_xml :: "environment \<Rightarrow> json list \<Rightarrow> bool \<Rightarrow> py_error + xml" where
  "save_to_xml env data translate =
     (case for_each (xml_repository env translate) data of
        Inl e \<Rightarrow> Inl e
      | Inr repos \<Rightarrow> Inr (Element ''repositories'' JNull repos))"

subsection \<open>The text of a CSV file\<close>













section \<open>States of a run, and inputs to run the definitions on\<close>

text \<open>
  The states in which a run of \<^verbatim>\<open>fetch_results\<close> evaluates the loop condition: the
  first one, and the one after each pass that does not \<^verbatim>\<open>break\<close>.
\<close>

inductive reaches :: "fetcher \<Rightarrow> int \<Rightarrow> loop_state \<Rightarrow> bool" for fetch :: fetcher and num_results :: int where
  reaches_init: "reaches fetch num_results init_state"
| reaches_again: "reaches fetch num_results s \<Longrightarrow> int (length (results s)) < num_results \<Longrightarrow>
     loop_body fetch s = (True, s') \<Longrightarrow> reaches fetch num_results s'"

code_pred reaches .

text \<open>
  A request that fails for good: \<^verbatim>\<open>session.get\<close> raises, or the status is an error
  other than 403.
\<close>

fun terminal_failure :: "get_outcome \<Rightarrow> bool" where
  "terminal_failure GetRaises = True"
| "terminal_failure (Response status body) = (raise_for_status status \<and> status \<noteq> 403)"

definition named :: "string \<Rightarrow> json" where
  "named n = JDict [(''name'', JStr n)]"

definition ok_page :: "json list \<Rightarrow> wire" where
  "ok_page items = Status 200 (Some (JDict [(''total_count'', JInt 4), (''items'', JList items)]))"

text \<open>
  A remote side with two pages of two records and nothing after them, which answers the
  first try for page 2 with status 403.
\<close>

definition two_pages :: remote where
  "two_pages p k j =
     (if p = 1 then ok_page [named ''r1'', named ''r2'']
      else if p = 2 then (if j = 0 then Status 403 None else ok_page [named ''r3'', named ''r4''])
      else ok_page [])"


text \<open>A remote side with one page of two records, then status 403 on every try.\<close>

definition then_403 :: remote where
  "then_403 p k j = (if p = 1 then ok_page [named ''r1'', named ''r2''] else Status 403 None)"

text \<open>A remote side with one page of two records, then status 500 on every try.\<close>

definition then_500 :: remote where
  "then_500 p k j = (if p = 1 then ok_page [named ''r1'', named ''r2''] else Status 500 None)"

text \<open>The state after page 1 of each of these.\<close>

definition after_page_1 :: loop_state where
  "after_page_1 =
     \<lparr>results = [named ''r1'', named ''r2''], page = 2, attempt = 0,
      trace = [Get 1 (Items [named ''r1'', named ''r2'']), Sleep 1]\<rparr>"

text \<open>A record as the search API returns it, cut down to a few fields.\<close>

definition demo_fields :: "(string \<times> json) list" where
  "demo_fields =
     [(''name'', JStr ''demo''),
      (''private'', JBool False),
      (''owner'', JDict [(''login'', JStr ''octo'')]),
      (''description'', JStr ''Bonjour le monde''),
      (''stargazers_count'', JInt 42),
      (''language'', JNull),
      (''license'', JDict [(''key'', JStr ''mit''), (''name'', JStr ''MIT License'')])]"

definition demo_repo :: json where
  "demo_repo = JDict demo_fields"

text \<open>A record with an English description, and the fields of one whose description is null.\<close>

definition plain_repo :: json where
  "plain_repo = JDict [(''name'', JStr ''plain''), (''description'', JStr ''Hello world'')]"

definition bare_fields :: "(string \<times> json) list" where
  "bare_fields = [(''name'', JStr ''bare''), (''description'', JNull)]"

text \<open>
  A detector that takes one text for French and every other for English, and a
  translation service that knows that one text.
\<close>

definition demo_env :: environment where
  "demo_env =
     \<lparr>translation_available = True,
      detect = (\<lambda>s. if s = ''Bonjour le monde'' then Some ''fr'' else Some ''en''),
      post_translate = (\<lambda>t. if t = JStr ''Bonjour le monde'' then Some (JStr ''Hello world'') else None)\<rparr>"

text \<open>What \<^verbatim>\<open>save_to_csv\<close> writes for the two records with the comma as delimiter.\<close>

definition demo_csv :: csv_file where
  "demo_csv =
     \<lparr>delimiter = CHR '','', header = fieldnames,
      rows = [[JStr ''demo'', JStr [], JStr [], JStr ''Bonjour le monde'', JStr ''Hello world'',
               JInt 42, JStr [], JStr [], JNull, JStr ''MIT License'', JStr []],
              [JStr ''plain'', JStr [], JStr [], JStr ''Hello world'', JStr [],
               JStr [], JStr [], JStr [], JStr [], JStr [], JStr []]]\<rparr>"

text \<open>What \<^verbatim>\<open>save_to_xml\<close> adds to the element of \<open>demo_repo\<close> when it translates.\<close>

definition demo_children :: "xml list" where
  "demo_children =
     [Element ''name'' (JStr ''demo'') [],
      Element ''private'' (JStr ''False'') [],
      Element ''description'' (JStr ''Bonjour le monde'') [],
      Element ''description_translated'' (JStr ''Hello world'') [],
      Element ''stargazers_count'' (JStr ''42'') [],
      Element ''language'' (JStr ''None'') []]"

text \<open>A remote side with one page of two records and nothing after it.\<close>

definition one_page :: remote where
  "one_page p k j = (if p = 1 then ok_page [named ''r1'', named ''r2''] else ok_page [])"

text \<open>The state in which the run on \<open>two_pages\<close> for three records ends.\<close>

definition end_of_two_pages :: loop_state where
  "end_of_two_pages =
     \<lparr>results = [named ''r1'', named ''r2'', named ''r3'', named ''r4''], page = 3, attempt = 0,
      trace = [Get 1 (Items [named ''r1'', named ''r2'']), Sleep 1,
               Get 2 (Items [named ''r3'', named ''r4'']), Sleep 1]\<rparr>"

section \<open>The pagination loop: one pass and whole runs\<close>

lemma fetch_loop_done:
  "\<not> int (length (results s)) < N \<Longrightarrow> fetch_loop fetch N s = Some s"
  by (subst fetch_loop.simps) simp

lemma fetch_loop_again:
  "int (length (results s)) < N \<Longrightarrow> loop_body fetch s = (True, s') \<Longrightarrow>
   fetch_loop fetch N s = fetch_loop fetch N s'"
  by (subst fetch_loop.simps) simp

lemma fetch_loop_break:
  "int (length (results s)) < N \<Longrightarrow> loop_body fetch s = (False, s') \<Longrightarrow>
   fetch_loop fetch N s = Some s'"
  by (subst fetch_loop.simps) simp

text \<open>
  The proof rule for runs that end: a property \<open>I\<close> that holds at the start and after
  every pass that goes on gives \<open>Q\<close> at the end, if \<open>I\<close> gives \<open>Q\<close> on leaving
  the loop either way.
\<close>

lemma fetch_loop_rule:
  assumes run: "fetch_loop fetch N s = Some t"
    and init: "I s"
    and again_I: "\<And>s s'. I s \<Longrightarrow> int (length (results s)) < N \<Longrightarrow>
                  loop_body fetch s = (True, s') \<Longrightarrow> I s'"
    and break_Q: "\<And>s s'. I s \<Longrightarrow> int (length (results s)) < N \<Longrightarrow>
                  loop_body fetch s = (False, s') \<Longrightarrow> Q s'"
    and exit_Q: "\<And>s. I s \<Longrightarrow> \<not> int (length (results s)) < N \<Longrightarrow> Q s"
  shows "Q t"
proof -
  have "fetch = fetch \<longrightarrow> N = N \<longrightarrow> I s \<longrightarrow> Q t"
  proof (rule fetch_loop.raw_induct
      [where P = "\<lambda>f n s t. f = fetch \<longrightarrow> n = N \<longrightarrow> I s \<longrightarrow> Q t", OF _ run])
    fix approx f n s t
    assume IH: "\<And>f n s t. approx f n s = Some t \<Longrightarrow> f = fetch \<longrightarrow> n = N \<longrightarrow> I s \<longrightarrow> Q t"
      and unfolded: "(if int (length (results s)) < n
          then case loop_body f s of (again, s') \<Rightarrow> if again then approx f n s' else Some s'
          else Some s) = Some t"
    show "f = fetch \<longrightarrow> n = N \<longrightarrow> I s \<longrightarrow> Q t"
    proof (intro impI)
      assume f: "f = fetch" and n: "n = N" and I: "I s"
      show "Q t"
      proof (cases "int (length (results s)) < N")
        case False
        with unfolded n have "t = s" by simp
        with exit_Q [OF I False] show ?thesis by simp
      next
        case less: True
        obtain b s' where body: "loop_body fetch s = (b, s')" by (cases "loop_body fetch s")
        show ?thesis
        proof (cases b)
          case True
          with body less unfolded f n have "approx fetch N s' = Some t" by simp
          moreover have "I s'" using again_I [OF I less] body True by simp
          ultimately show ?thesis using IH by blast
        next
          case False
          with body less unfolded f n have "t = s'" by simp
          with break_Q [OF I less] body False show ?thesis by simp
        qed
      qed
    qed
  qed
  with init show ?thesis by blast
qed

lemma reaches_run: "reaches fetch N s \<Longrightarrow> fetch_run fetch N = fetch_loop fetch N s"
  by (induction rule: reaches.induct) (simp_all add: fetch_run_def fetch_loop_again)



lemma try_block_RateLimited: "try_block out = RateLimited \<longleftrightarrow> returns_403 out"
  by (cases out)
    (auto simp: try_block_def Let_def raise_for_status_def
      split: if_splits option.splits json.splits)

lemma try_block_terminal_failure: "terminal_failure out \<Longrightarrow> try_block out = Terminal"
  by (cases out) (auto simp: try_block_def)

lemma loop_body_returns_403:
  "returns_403 (fetch (page s) (attempt s)) \<Longrightarrow>
   loop_body fetch s =
     (True, s\<lparr>attempt := Suc (attempt s),
               trace := trace s @ [Get (page s) RateLimited, Sleep 60]\<rparr>)"
  by (simp add: loop_body_def try_block_RateLimited [THEN iffD2])


text \<open>Every pass starts with a request for the current page.\<close>

lemma loop_body_requests:
  "prefix (trace s @ [Get (page s) (try_block (fetch (page s) (attempt s)))])
     (trace (snd (loop_body fetch s)))"
  by (cases "try_block (fetch (page s) (attempt s))") (auto simp: loop_body_def)

lemma py_slice_to_short: "int (length xs) < n \<Longrightarrow> py_slice_to xs n = xs"
  by (simp add: py_slice_to_def)

lemma length_py_slice_to: "0 \<le> n \<Longrightarrow> int (length (py_slice_to xs n)) \<le> n"
  by (simp add: py_slice_to_def)

lemma prefix_py_slice_to: "prefix (py_slice_to xs n) xs"
  by (simp add: py_slice_to_def take_is_prefix)

subsection \<open>The records returned\<close>

lemma fetched_items_append:
  "fetched_items (es @ fs) = fetched_items es @ fetched_items fs"
  by (induction es rule: fetched_items.induct) simp_all

lemma loop_body_results:
  "loop_body fetch s = (b, s') \<Longrightarrow> results s = fetched_items (trace s) \<Longrightarrow>
   results s' = fetched_items (trace s')"
  by (auto simp: loop_body_def fetched_items_append split: page_result.splits)

lemma fetch_loop_results:
  assumes "fetch_loop fetch N s = Some t" and "results s = fetched_items (trace s)"
  shows "results t = fetched_items (trace t)"
  using assms(1)
  by (rule fetch_loop_rule [where I = "\<lambda>s. results s = fetched_items (trace s)"])
    (auto intro: assms(2) loop_body_results)

text \<open>
  C1. Whatever the remote side does and whatever the target count \<open>N\<close>, the list that
  \<^verbatim>\<open>fetch_results\<close> returns is the slice \<^verbatim>\<open>[:N]\<close> of the records of the pages fetched
  with success, joined in the order of the requests: a prefix of them, so their order
  is kept and only the last page's overshoot is cut, and of length at most \<open>N\<close> for a
  count \<open>N \<ge> 0\<close>. (\<open>N\<close> is a Python int: for \<open>N \<le> 0\<close> the loop does not run and the
  list is empty.)
\<close>

theorem fetch_results_capped_prefix:
  assumes "fetch_run fetch N = Some s" and "fetch_results fetch N = Some r"
  shows "r = py_slice_to (fetched_items (trace s)) N
       \<and> prefix r (fetched_items (trace s))
       \<and> (0 \<le> N \<longrightarrow> int (length r) \<le> N)
       \<and> (N \<le> 0 \<longrightarrow> r = [])"
proof -
  have "results s = fetched_items (trace s)"
    using assms(1) unfolding fetch_run_def
    by (rule fetch_loop_results) (simp add: init_state_def)
  moreover have r: "r = py_slice_to (results s) N"
    using assms by (simp add: fetch_results_def)
  moreover have "r = []" if "N \<le> 0"
  proof -
    from that have "fetch_loop fetch N init_state = Some init_state"
      by (intro fetch_loop_done) (simp add: init_state_def)
    with assms(1) have "s = init_state"
      by (simp add: fetch_run_def)
    with r show ?thesis
      by (simp add: init_state_def py_slice_to_def)
  qed
  ultimately show ?thesis
    by (simp add: prefix_py_slice_to length_py_slice_to)
qed

theorem fetch_results_capped_prefix_witness:
  "fetch_run (session_get two_pages) 3 = Some end_of_two_pages
   \<and> fetch_results (session_get two_pages) 3 = Some [named ''r1'', named ''r2'', named ''r3'']
   \<and> fetched_items (trace end_of_two_pages)
       = [named ''r1'', named ''r2'', named ''r3'', named ''r4'']
   \<and> prefix [named ''r1'', named ''r2'', named ''r3''] (fetched_items (trace end_of_two_pages))
   \<and> int (length [named ''r1'', named ''r2'', named ''r3'']) \<le> 3"
proof -
  have run: "fetch_run (session_get two_pages) 3 = Some end_of_two_pages"
    by code_simp
  have res: "fetch_results (session_get two_pages) 3 = Some [named ''r1'', named ''r2'', named ''r3'']"
    by code_simp
  have items: "fetched_items (trace end_of_two_pages)
      = [named ''r1'', named ''r2'', named ''r3'', named ''r4'']"
    by (simp add: end_of_two_pages_def)
  note capped = fetch_results_capped_prefix [OF run res]
  from capped have pre:
    "prefix [named ''r1'', named ''r2'', named ''r3''] (fetched_items (trace end_of_two_pages))"
    by (rule conjunct1 [OF conjunct2])
  have len: "int (length [named ''r1'', named ''r2'', named ''r3'']) \<le> 3"
    by simp
  from run res items pre len show ?thesis
    by (intro conjI)
qed

subsection \<open>Rate limit, empty page, failure\<close>

text \<open>What the loop does when \<^verbatim>\<open>session.get\<close> hands back a response with status 403.\<close>

lemma loop_body_cooldown:
  assumes "reaches fetch N s"
    and "int (length (results s)) < N"
    and "returns_403 (fetch (page s) (attempt s))"
  shows "loop_body fetch s =
           (True, s\<lparr>attempt := Suc (attempt s),
                     trace := trace s @ [Get (page s) RateLimited, Sleep 60]\<rparr>)
       \<and> reaches fetch N (s\<lparr>attempt := Suc (attempt s),
                     trace := trace s @ [Get (page s) RateLimited, Sleep 60]\<rparr>)"
proof -
  let ?s' = "s\<lparr>attempt := Suc (attempt s),
                trace := trace s @ [Get (page s) RateLimited, Sleep 60]\<rparr>"
  have body: "loop_body fetch s = (True, ?s')"
    using assms(3) by (rule loop_body_returns_403)
  moreover have "reaches fetch N ?s'"
    using assms(1,2) body by (rule reaches_again)
  ultimately show ?thesis by simp
qed

text \<open>
  The session never hands back a response whose status is in the adapter's list, so the
  branch that waits 60 seconds is not reached through it.
\<close>

lemma retry_not_listed:
  "retry answers left j = Response status body \<Longrightarrow> status \<notin> set status_forcelist"
  by (induction left arbitrary: j) (auto split: wire.splits if_splits)

lemma session_get_never_403: "\<not> returns_403 (session_get remote p k)"
proof (cases "session_get remote p k")
  case GetRaises
  then show ?thesis by simp
next
  case (Response status body)
  then have "status \<notin> set status_forcelist"
    unfolding session_get_def by (rule retry_not_listed)
  with Response show ?thesis by (simp add: status_forcelist_def)
qed

lemma session_get_no_cooldown:
  "fst (loop_body (session_get remote) s) \<Longrightarrow>
   (\<exists>items. trace (snd (loop_body (session_get remote) s))
      = trace s @ [Get (page s) (Items items), Sleep 1])"
  using session_get_never_403 [of remote "page s" "attempt s"]
  by (auto simp: loop_body_def try_block_RateLimited [symmetric] split: page_result.splits)

text \<open>
  C2, on the program as it runs. The claim is what the loop is written to do, and the
  program does not do it. Against a remote side that has given one page of two records
  and then answers status 403 on every try, the adapter gives up after its retries,
  \<^verbatim>\<open>session.get\<close> raises, and the handler \<^verbatim>\<open>except Exception\<close> leaves the loop: the run
  for five records ends after the request for page 2 with the two records of page 1, and
  there is no wait of 60 and no second request for page 2.
\<close>

theorem rate_limit_ends_run:
  "session_get then_403 2 0 = GetRaises
   \<and> fetch_run (session_get then_403) 5 =
       Some \<lparr>results = [named ''r1'', named ''r2''], page = 2, attempt = 1,
             trace = [Get 1 (Items [named ''r1'', named ''r2'']), Sleep 1, Get 2 Terminal]\<rparr>
   \<and> fetch_results (session_get then_403) 5 = Some [named ''r1'', named ''r2'']"
proof -
  have "session_get then_403 2 0 = GetRaises"
    by code_simp
  moreover have "fetch_run (session_get then_403) 5 =
       Some \<lparr>results = [named ''r1'', named ''r2''], page = 2, attempt = 1,
             trace = [Get 1 (Items [named ''r1'', named ''r2'']), Sleep 1, Get 2 Terminal]\<rparr>"
    by code_simp
  moreover have "fetch_results (session_get then_403) 5 = Some [named ''r1'', named ''r2'']"
    by code_simp
  ultimately show ?thesis by (intro conjI)
qed

text \<open>
  C3. Whenever the loop asks for a page and the answer carries no records (the item
  list is empty or missing), the run ends there: its last event is that request, no
  request or wait follows, and \<^verbatim>\<open>fetch_results\<close> returns exactly the records it had
  before, although they are fewer than the target count.
\<close>

theorem empty_page_ends_collection:
  assumes "reaches fetch N s"
    and "int (length (results s)) < N"
    and "fetch (page s) (attempt s) = Response status (Some (JDict kvs))"
    and "\<not> raise_for_status status"
    and "\<not> truthy (dict_get kvs ''items'' (JList []))"
  shows "fetch_run fetch N =
           Some (s\<lparr>attempt := Suc (attempt s), trace := trace s @ [Get (page s) Exhausted]\<rparr>)
       \<and> fetch_results fetch N = Some (results s)"
proof -
  have "try_block (fetch (page s) (attempt s)) = Exhausted"
    using assms(3-5) by (simp add: try_block_def)
  then have "loop_body fetch s =
      (False, s\<lparr>attempt := Suc (attempt s), trace := trace s @ [Get (page s) Exhausted]\<rparr>)"
    by (simp add: loop_body_def)
  with assms(2) have "fetch_loop fetch N s =
      Some (s\<lparr>attempt := Suc (attempt s), trace := trace s @ [Get (page s) Exhausted]\<rparr>)"
    by (rule fetch_loop_break)
  with reaches_run [OF assms(1)] assms(2) show ?thesis
    by (simp add: fetch_results_def py_slice_to_short)
qed

theorem empty_page_ends_collection_witness:
  "reaches (session_get one_page) 5 after_page_1
   \<and> int (length (results after_page_1)) < 5
   \<and> session_get one_page (page after_page_1) (attempt after_page_1)
       = Response 200 (Some (JDict [(''total_count'', JInt 4), (''items'', JList [])]))
   \<and> fetch_run (session_get one_page) 5 =
       Some (after_page_1\<lparr>attempt := 1, trace := trace after_page_1 @ [Get 2 Exhausted]\<rparr>)
   \<and> fetch_results (session_get one_page) 5 = Some [named ''r1'', named ''r2'']"
proof -
  have r: "reaches (session_get one_page) 5 after_page_1"
    by (rule reaches_again [OF reaches_init]) code_simp+
  have l: "int (length (results after_page_1)) < 5"
    by (simp add: after_page_1_def)
  have o: "session_get one_page (page after_page_1) (attempt after_page_1)
      = Response 200 (Some (JDict [(''total_count'', JInt 4), (''items'', JList [])]))"
    by code_simp
  have s: "\<not> raise_for_status 200"
    by (simp add: raise_for_status_def)
  have e: "\<not> truthy (dict_get [(''total_count'', JInt 4), (''items'', JList [])] ''items'' (JList []))"
    by (simp add: dict_get_def)
  have p: "page after_page_1 = 2" "attempt after_page_1 = 0"
    "results after_page_1 = [named ''r1'', named ''r2'']"
    by (simp_all add: after_page_1_def)
  from empty_page_ends_collection [OF r l o s e] r l o show ?thesis
    by (simp add: p)
qed

text \<open>
  C4. Whenever the loop asks for a page and the request fails for good (\<^verbatim>\<open>session.get\<close>
  raises, or the status is an error other than 403), the run ends there and
  \<^verbatim>\<open>fetch_results\<close> returns, as an ordinary value, the records it had: the slice
  \<^verbatim>\<open>[:N]\<close> of them, which is all of them.
\<close>

theorem terminal_failure_returns_partial:
  assumes "reaches fetch N s"
    and "int (length (results s)) < N"
    and "terminal_failure (fetch (page s) (attempt s))"
  shows "fetch_run fetch N =
           Some (s\<lparr>attempt := Suc (attempt s), trace := trace s @ [Get (page s) Terminal]\<rparr>)
       \<and> fetch_results fetch N = Some (py_slice_to (results s) N)
       \<and> py_slice_to (results s) N = results s"
proof -
  have "try_block (fetch (page s) (attempt s)) = Terminal"
    using assms(3) by (rule try_block_terminal_failure)
  then have "loop_body fetch s =
      (False, s\<lparr>attempt := Suc (attempt s), trace := trace s @ [Get (page s) Terminal]\<rparr>)"
    by (simp add: loop_body_def)
  with assms(2) have "fetch_loop fetch N s =
      Some (s\<lparr>attempt := Suc (attempt s), trace := trace s @ [Get (page s) Terminal]\<rparr>)"
    by (rule fetch_loop_break)
  with reaches_run [OF assms(1)] assms(2) show ?thesis
    by (simp add: fetch_results_def py_slice_to_short)
qed

theorem terminal_failure_returns_partial_witness:
  "reaches (session_get then_500) 5 after_page_1
   \<and> int (length (results after_page_1)) < 5
   \<and> terminal_failure (session_get then_500 (page after_page_1) (attempt after_page_1))
   \<and> fetch_run (session_get then_500) 5 =
       Some (after_page_1\<lparr>attempt := 1, trace := trace after_page_1 @ [Get 2 Terminal]\<rparr>)
   \<and> fetch_results (session_get then_500) 5 = Some [named ''r1'', named ''r2'']"
proof -
  have r: "reaches (session_get then_500) 5 after_page_1"
    by (rule reaches_again [OF reaches_init]) code_simp+
  have l: "int (length (results after_page_1)) < 5"
    by (simp add: after_page_1_def)
  have t: "terminal_failure (session_get then_500 (page after_page_1) (attempt after_page_1))"
    by code_simp
  have p: "page after_page_1 = 2" "attempt after_page_1 = 0"
    "results after_page_1 = [named ''r1'', named ''r2'']"
    by (simp_all add: after_page_1_def)
  from terminal_failure_returns_partial [OF r l t] r l t show ?thesis
    by (simp add: p)
qed

subsection \<open>Waits\<close>











subsection \<open>Runs that end and runs that do not\<close>

text \<open>
  The loop has no counter of its own: a \<^verbatim>\<open>session.get\<close> that handed back status 403
  to every call for a page would keep it running. The session of \<^verbatim>\<open>search_github\<close>
  never does that (\<open>session_get_never_403\<close>).
\<close>

lemma fetch_loop_diverges:
  assumes stuck: "\<forall>k\<ge>attempt s. returns_403 (fetch (page s) k)"
    and less: "int (length (results s)) < N"
  shows "fetch_loop fetch N s = None"
proof (rule ccontr)
  assume "fetch_loop fetch N s \<noteq> None"
  then obtain t where run: "fetch_loop fetch N s = Some t" by blast
  have "False"
    using run
  proof (rule fetch_loop_rule
      [where I = "\<lambda>s'. (\<forall>k\<ge>attempt s'. returns_403 (fetch (page s') k))
                     \<and> int (length (results s')) < N" and Q = "\<lambda>t. False"])
    show "(\<forall>k\<ge>attempt s. returns_403 (fetch (page s) k)) \<and> int (length (results s)) < N"
      using stuck less by simp
  next
    fix u u'
    assume I: "(\<forall>k\<ge>attempt u. returns_403 (fetch (page u) k)) \<and> int (length (results u)) < N"
      and body: "loop_body fetch u = (True, u')"
    from I have "returns_403 (fetch (page u) (attempt u))" by simp
    from loop_body_returns_403 [of fetch u, OF this] body
    have "u' = u\<lparr>attempt := Suc (attempt u),
                  trace := trace u @ [Get (page u) RateLimited, Sleep 60]\<rparr>" by simp
    with I show "(\<forall>k\<ge>attempt u'. returns_403 (fetch (page u') k))
                \<and> int (length (results u')) < N" by simp
  next
    fix u u'
    assume I: "(\<forall>k\<ge>attempt u. returns_403 (fetch (page u) k)) \<and> int (length (results u)) < N"
      and body: "loop_body fetch u = (False, u')"
    from I have "returns_403 (fetch (page u) (attempt u))" by simp
    from loop_body_returns_403 [of fetch u, OF this] body show False by simp
  next
    fix u
    assume "(\<forall>k\<ge>attempt u. returns_403 (fetch (page u) k)) \<and> int (length (results u)) < N"
      and "\<not> int (length (results u)) < N"
    then show False by simp
  qed
  then show False .
qed






section \<open>The exporters: what is written\<close>

lemma for_each_all2:
  "for_each f xs = Inr ys \<Longrightarrow> list_all2 (\<lambda>x y. f x = Inr y) xs ys"
  by (induction xs arbitrary: ys) (auto split: sum.splits)

lemma for_each_concat_member:
  "for_each f xs = Inr ys \<Longrightarrow> c \<in> set (concat ys) \<Longrightarrow>
   \<exists>x\<in>set xs. \<exists>y. f x = Inr y \<and> c \<in> set y"
proof -
  assume run: "for_each f xs = Inr ys" and "c \<in> set (concat ys)"
  then obtain y where "y \<in> set ys" and c: "c \<in> set y" by auto
  then obtain i where i: "i < length ys" "ys ! i = y" by (auto simp: in_set_conv_nth)
  with for_each_all2 [OF run] have "i < length xs" "f (xs ! i) = Inr y"
    by (auto simp: list_all2_conv_all_nth)
  with c show ?thesis by (metis nth_mem)
qed

lemma for_each_concat_subset:
  "for_each f xs = Inr ys \<Longrightarrow> x \<in> set xs \<Longrightarrow> \<exists>y. f x = Inr y \<and> set y \<subseteq> set (concat ys)"
proof -
  assume run: "for_each f xs = Inr ys" and "x \<in> set xs"
  then obtain i where i: "i < length xs" "xs ! i = x" by (auto simp: in_set_conv_nth)
  with for_each_all2 [OF run] have "i < length ys" "f x = Inr (ys ! i)"
    by (auto simp: list_all2_conv_all_nth)
  then show ?thesis by (metis nth_mem Sup_upper set_concat image_eqI)
qed

lemma dict_get_update:
  "dict_get (AList.update k v al) field d = (if field = k then v else dict_get al field d)"
  by (simp add: dict_get_def update_conv')


lemma detect_lang_text:
  "detect_lang env v = Inr lang \<Longrightarrow> lang \<notin> {''en'', ''ar''} \<Longrightarrow> \<exists>s. v = JStr s"
  by (auto simp: detect_lang_def split: if_splits json.splits)

subsection \<open>CSV and TSV rows\<close>

lemma cell_writerow:
  "field \<in> set fieldnames \<Longrightarrow> cell (writerow row) field = Some (dict_get row field (JStr []))"
  by (simp add: cell_def writerow_def map_of_zip_map)









subsection \<open>The two delimiters\<close>













subsection \<open>The translated description in each format\<close>

lemma enrich_json_truthy:
  assumes "truthy (dict_get kvs ''description'' JNull)"
    and "detect_lang env (dict_get kvs ''description'' JNull) = Inr lang"
  shows "enrich_json env True (JDict kvs) =
           Inr (JDict (AList.update ''description_translated''
                  (if lang \<notin> {''en'', ''ar''}
                   then translate_text env (dict_get kvs ''description'' JNull)
                   else JStr []) kvs))"
  using assms by (simp add: enrich_json_def)

lemma csv_row_truthy:
  assumes "truthy (dict_get kvs ''description'' JNull)"
    and "detect_lang env (dict_get kvs ''description'' JNull) = Inr lang"
    and "csv_row env True (JDict kvs) = Inr row"
  shows "cell row ''description_translated'' =
           Some (if lang \<notin> {''en'', ''ar''}
                 then translate_text env (dict_get kvs ''description'' JNull)
                 else JStr [])"
proof -
  have "''description_translated'' \<in> set fieldnames" by (simp add: fieldnames_def)
  with assms show ?thesis
    by (auto simp: csv_row_def Let_def cell_writerow dict_get_update
        split: sum.splits if_splits)
qed

lemma xml_field_truthy:
  assumes "truthy v" and "\<not> is_container v"
    and "map_of kvs ''description'' = Some v"
    and "detect_lang env v = Inr lang"
  shows "xml_field env True kvs (''description'', v) =
           Inr (if lang \<notin> {''en'', ''ar''}
                then [Element ''description'' v [],
                      Element ''description_translated'' (translate_text env v) []]
                else [Element ''description'' (JStr (py_str v)) []])"
  using assms by (simp add: xml_field_def dict_get_def)

lemma csv_row_falsy:
  "\<not> truthy (dict_get kvs ''description'' JNull) \<Longrightarrow>
   csv_row env True (JDict kvs) = csv_row env' False (JDict kvs)"
  by (simp add: csv_row_def Let_def split: sum.splits)

lemma xml_field_falsy:
  "\<not> truthy (dict_get kvs ''description'' JNull) \<Longrightarrow>
   xml_field env True kvs item = xml_field env' False kvs item"
  by (simp add: xml_field_def split: prod.splits)

text \<open>
  C5, as the code has it. With \<^verbatim>\<open>translate\<close> on and a record whose description is
  truthy and whose language the detector gives as \<open>lang\<close>:
  \<^item> JSON stores under \<^verbatim>\<open>description_translated\<close> the translated text when \<open>lang\<close> is
    neither \<^verbatim>\<open>en\<close> nor \<^verbatim>\<open>ar\<close>, and the empty string when it is one of them;
  \<^item> CSV and TSV write the same value in the column \<^verbatim>\<open>description_translated\<close>;
  \<^item> XML emits \<^verbatim>\<open>description\<close> and \<^verbatim>\<open>description_translated\<close> with the translated
    text when \<open>lang\<close> is neither, and \<^verbatim>\<open>description\<close> alone, with no
    \<^verbatim>\<open>description_translated\<close> element, when it is one of them.
  A record whose description is missing or falsy is exported as with \<^verbatim>\<open>translate\<close> off
  and whatever the detector and the translation service are: neither is called.
\<close>

theorem enrichment_per_format:
  "(truthy (dict_get kvs ''description'' JNull)
      \<and> detect_lang env (dict_get kvs ''description'' JNull) = Inr lang
    \<longrightarrow> enrich_json env True (JDict kvs) =
          Inr (JDict (AList.update ''description_translated''
                 (if lang \<notin> {''en'', ''ar''}
                  then translate_text env (dict_get kvs ''description'' JNull)
                  else JStr []) kvs))
        \<and> (csv_row env True (JDict kvs) = Inr row
           \<longrightarrow> cell row ''description_translated'' =
                 Some (if lang \<notin> {''en'', ''ar''}
                       then translate_text env (dict_get kvs ''description'' JNull)
                       else JStr []))
        \<and> (map_of kvs ''description'' = Some v \<and> \<not> is_container v
           \<longrightarrow> xml_field env True kvs (''description'', v) =
                 Inr (if lang \<notin> {''en'', ''ar''}
                      then [Element ''description'' v [],
                            Element ''description_translated'' (translate_text env v) []]
                      else [Element ''description'' (JStr (py_str v)) []])))
   \<and> (\<not> truthy (dict_get kvs ''description'' JNull)
    \<longrightarrow> enrich_json env True (JDict kvs) = Inr (JDict kvs)
        \<and> csv_row env True (JDict kvs) = csv_row env' False (JDict kvs)
        \<and> xml_field env True kvs item = xml_field env' False kvs item)"
proof (intro conjI impI)
  assume "truthy (dict_get kvs ''description'' JNull)
      \<and> detect_lang env (dict_get kvs ''description'' JNull) = Inr lang"
  then show "enrich_json env True (JDict kvs) =
          Inr (JDict (AList.update ''description_translated''
                 (if lang \<notin> {''en'', ''ar''}
                  then translate_text env (dict_get kvs ''description'' JNull)
                  else JStr []) kvs))"
    by (simp add: enrich_json_truthy)
next
  assume "truthy (dict_get kvs ''description'' JNull)
      \<and> detect_lang env (dict_get kvs ''description'' JNull) = Inr lang"
    and "csv_row env True (JDict kvs) = Inr row"
  then show "cell row ''description_translated'' =
                 Some (if lang \<notin> {''en'', ''ar''}
                       then translate_text env (dict_get kvs ''description'' JNull)
                       else JStr [])"
    by (intro csv_row_truthy) simp_all
next
  assume a: "truthy (dict_get kvs ''description'' JNull)
      \<and> detect_lang env (dict_get kvs ''description'' JNull) = Inr lang"
    and b: "map_of kvs ''description'' = Some v \<and> \<not> is_container v"
  from b have "dict_get kvs ''description'' JNull = v" by (simp add: dict_get_def)
  with a b show "xml_field env True kvs (''description'', v) =
                 Inr (if lang \<notin> {''en'', ''ar''}
                      then [Element ''description'' v [],
                            Element ''description_translated'' (translate_text env v) []]
                      else [Element ''description'' (JStr (py_str v)) []])"
    by (intro xml_field_truthy) simp_all
next
  assume "\<not> truthy (dict_get kvs ''description'' JNull)"
  then show "enrich_json env True (JDict kvs) = Inr (JDict kvs)"
    by (simp add: enrich_json_def)
next
  assume "\<not> truthy (dict_get kvs ''description'' JNull)"
  then show "csv_row env True (JDict kvs) = csv_row env' False (JDict kvs)"
    by (rule csv_row_falsy)
next
  assume "\<not> truthy (dict_get kvs ''description'' JNull)"
  then show "xml_field env True kvs item = xml_field env' False kvs item"
    by (rule xml_field_falsy)
qed

theorem enrichment_per_format_witness:
  "enrich_json demo_env True demo_repo =
     Inr (JDict (demo_fields @ [(''description_translated'', JStr ''Hello world'')]))
   \<and> cell (rows demo_csv ! 0) ''description_translated'' = Some (JStr ''Hello world'')
   \<and> xml_field demo_env True demo_fields (''description'', JStr ''Bonjour le monde'') =
       Inr [Element ''description'' (JStr ''Bonjour le monde'') [],
            Element ''description_translated'' (JStr ''Hello world'') []]
   \<and> enrich_json demo_env True (JDict bare_fields) = Inr (JDict bare_fields)"
proof -
  have d: "dict_get demo_fields ''description'' JNull = JStr ''Bonjour le monde''"
    by (simp add: dict_get_def demo_fields_def)
  have h1: "truthy (dict_get demo_fields ''description'' JNull)
      \<and> detect_lang demo_env (dict_get demo_fields ''description'' JNull) = Inr ''fr''"
    by (simp add: d detect_lang_def demo_env_def)
  have h2: "csv_row demo_env True (JDict demo_fields) = Inr (rows demo_csv ! 0)"
    by code_simp
  have h3: "map_of demo_fields ''description'' = Some (JStr ''Bonjour le monde'')
      \<and> \<not> is_container (JStr ''Bonjour le monde'')"
    by (simp add: demo_fields_def)
  have h4: "\<not> truthy (dict_get bare_fields ''description'' JNull)"
    by (simp add: dict_get_def bare_fields_def)
  have tr: "translate_text demo_env (JStr ''Bonjour le monde'') = JStr ''Hello world''"
    by (simp add: translate_text_def demo_env_def)
  have up: "AList.update ''description_translated'' (JStr ''Hello world'') demo_fields
      = demo_fields @ [(''description_translated'', JStr ''Hello world'')]"
    by (simp add: demo_fields_def)
  note t = enrichment_per_format
    [where kvs = demo_fields and env = demo_env and lang = "''fr''"
       and row = "rows demo_csv ! 0" and v = "JStr ''Bonjour le monde''"]
  note u = enrichment_per_format [where kvs = bare_fields and env = demo_env]
  from t h1 h2 h3 have
    "enrich_json demo_env True (JDict demo_fields) =
       Inr (JDict (AList.update ''description_translated''
         (translate_text demo_env (dict_get demo_fields ''description'' JNull)) demo_fields))"
    "cell (rows demo_csv ! 0) ''description_translated'' =
       Some (translate_text demo_env (dict_get demo_fields ''description'' JNull))"
    "xml_field demo_env True demo_fields (''description'', JStr ''Bonjour le monde'') =
       Inr [Element ''description'' (JStr ''Bonjour le monde'') [],
            Element ''description_translated''
              (translate_text demo_env (JStr ''Bonjour le monde'')) []]"
    by simp_all
  moreover from u h4 have "enrich_json demo_env True (JDict bare_fields) = Inr (JDict bare_fields)"
    by blast
  ultimately show ?thesis
    by (simp add: d tr up demo_repo_def)
qed

text \<open>
  The claim as it is written fails on the XML path: for a record with an English
  description, JSON adds \<^verbatim>\<open>description_translated\<close> with the empty string, and XML
  emits no such element.
\<close>

theorem xml_omits_empty_translation_counterexample:
  "save_to_xml demo_env [plain_repo] True =
     Inr (Element ''repositories'' JNull
            [Element ''repository'' JNull
               [Element ''name'' (JStr ''plain'') [],
                Element ''description'' (JStr ''Hello world'') []]])
   \<and> save_to_json demo_env [plain_repo] True =
       Inr [JDict [(''name'', JStr ''plain''), (''description'', JStr ''Hello world''),
                   (''description_translated'', JStr [])]]"
proof -
  have "save_to_xml demo_env [plain_repo] True =
     Inr (Element ''repositories'' JNull
            [Element ''repository'' JNull
               [Element ''name'' (JStr ''plain'') [],
                Element ''description'' (JStr ''Hello world'') []]])"
    by code_simp
  moreover have "save_to_json demo_env [plain_repo] True =
       Inr [JDict [(''name'', JStr ''plain''), (''description'', JStr ''Hello world''),
                   (''description_translated'', JStr [])]]"
    by code_simp
  ultimately show ?thesis ..
qed

subsection \<open>XML children\<close>

lemma xml_repository_children:
  "xml_repository env translate (JDict kvs) = Inr (Element t x children) \<Longrightarrow>
   \<exists>added. for_each (xml_field env translate kvs) kvs = Inr added \<and> children = concat added"
  by (auto simp: xml_repository_def split: sum.splits)

lemma xml_field_skips:
  "k \<in> {''owner'', ''license''} \<or> is_container v \<Longrightarrow> xml_field env translate kvs (k, v) = Inr []"
  by (auto simp: xml_field_def)

lemma xml_field_tags:
  assumes "xml_field env translate kvs (k, v) = Inr els" and "c \<in> set els"
  shows "k \<notin> {''owner'', ''license''} \<and> \<not> is_container v
       \<and> (tag_of c = k \<or> tag_of c = ''description_translated'')"
  using assms by (auto simp: xml_field_def split: if_splits sum.splits)

lemma xml_field_texts:
  assumes "map_of kvs k = Some v"
    and "xml_field env translate kvs (k, v) = Inr els" and "c \<in> set els"
  shows "tag_of c = ''description_translated'' \<or> c = Element k (JStr (py_str v)) []"
  using assms
  by (auto simp: xml_field_def dict_get_def split: if_splits sum.splits
      dest!: detect_lang_text)

lemma xml_field_emits:
  assumes "map_of kvs k = Some v"
    and "k \<notin> {''owner'', ''license''}" and "\<not> is_container v"
    and "xml_field env translate kvs (k, v) = Inr els"
  shows "Element k (JStr (py_str v)) [] \<in> set els"
  using assms
  by (auto simp: xml_field_def dict_get_def split: if_splits sum.splits
      dest!: detect_lang_text)

lemma distinct_map_of: "distinct (map fst kvs) \<Longrightarrow> (k, v) \<in> set kvs \<Longrightarrow> map_of kvs k = Some v"
  by simp

text \<open>
  C7. In \<^verbatim>\<open>save_to_xml\<close> an item whose key is \<^verbatim>\<open>owner\<close> or \<^verbatim>\<open>license\<close>, or whose
  value is a dict or a list, adds no child. So the element of a record has no child
  with the tag \<^verbatim>\<open>license\<close> or \<^verbatim>\<open>owner\<close>, and none with the key of a field whose
  value is nested (the keys of a dict are distinct). When the description is enriched
  (\<^verbatim>\<open>translate\<close> is on, the description is a truthy scalar and its language is neither
  \<^verbatim>\<open>en\<close> nor \<^verbatim>\<open>ar\<close>), the element has both the child \<^verbatim>\<open>description\<close> and the child
  \<^verbatim>\<open>description_translated\<close> with the translated text.
\<close>

theorem xml_skips_nested_fields:
  "(k \<in> {''owner'', ''license''} \<or> is_container v
      \<longrightarrow> xml_field env translate kvs (k, v) = Inr [])
   \<and> (xml_repository env translate (JDict kvs) = Inr (Element t x children)
      \<longrightarrow> ''license'' \<notin> tag_of ` set children
        \<and> ''owner'' \<notin> tag_of ` set children
        \<and> (distinct (map fst kvs) \<and> (k, v) \<in> set kvs \<and> is_container v
             \<and> k \<noteq> ''description_translated''
           \<longrightarrow> k \<notin> tag_of ` set children)
        \<and> (translate \<and> map_of kvs ''description'' = Some d \<and> truthy d \<and> \<not> is_container d
             \<and> detect_lang env d = Inr lang \<and> lang \<notin> {''en'', ''ar''}
           \<longrightarrow> Element ''description'' d [] \<in> set children
               \<and> Element ''description_translated'' (translate_text env d) [] \<in> set children))"
proof (intro conjI impI)
  assume "k \<in> {''owner'', ''license''} \<or> is_container v"
  then show "xml_field env translate kvs (k, v) = Inr []"
    by (rule xml_field_skips)
next
  assume "xml_repository env translate (JDict kvs) = Inr (Element t x children)"
  then obtain added where added: "for_each (xml_field env translate kvs) kvs = Inr added"
    and children: "children = concat added"
    by (blast dest: xml_repository_children)
  have tags: "k' \<notin> {''owner'', ''license''} \<and> \<not> is_container v'
       \<and> (tag_of c = k' \<or> tag_of c = ''description_translated'')"
    if "c \<in> set children" "(k', v') \<in> set kvs"
      "xml_field env translate kvs (k', v') = Inr els" "c \<in> set els" for c k' v' els
    using that(3,4) by (rule xml_field_tags)
  have origin: "\<exists>k' v' els. (k', v') \<in> set kvs
      \<and> xml_field env translate kvs (k', v') = Inr els \<and> c \<in> set els"
    if "c \<in> set children" for c
    using for_each_concat_member [OF added] that children by fastforce
  show "''license'' \<notin> tag_of ` set children"
  proof
    assume "''license'' \<in> tag_of ` set children"
    then obtain c where c: "c \<in> set children" "tag_of c = ''license''" by auto
    from origin [OF c(1)] obtain k' v' els where "(k', v') \<in> set kvs"
      "xml_field env translate kvs (k', v') = Inr els" "c \<in> set els" by blast
    from tags [OF c(1) this] c(2) show False by auto
  qed
  show "''owner'' \<notin> tag_of ` set children"
  proof
    assume "''owner'' \<in> tag_of ` set children"
    then obtain c where c: "c \<in> set children" "tag_of c = ''owner''" by auto
    from origin [OF c(1)] obtain k' v' els where "(k', v') \<in> set kvs"
      "xml_field env translate kvs (k', v') = Inr els" "c \<in> set els" by blast
    from tags [OF c(1) this] c(2) show False by auto
  qed
  {
    assume a: "distinct (map fst kvs) \<and> (k, v) \<in> set kvs \<and> is_container v
             \<and> k \<noteq> ''description_translated''"
    show "k \<notin> tag_of ` set children"
    proof
      assume "k \<in> tag_of ` set children"
      then obtain c where c: "c \<in> set children" "tag_of c = k" by auto
      from origin [OF c(1)] obtain k' v' els where o: "(k', v') \<in> set kvs"
        "xml_field env translate kvs (k', v') = Inr els" "c \<in> set els" by blast
      from tags [OF c(1) this] c(2) a have "k' = k" and "\<not> is_container v'" by auto
      moreover from a o(1) \<open>k' = k\<close> have "v' = v"
        by (metis distinct_map_of option.inject)
      ultimately show False using a by simp
    qed
  }
  {
    assume a: "translate \<and> map_of kvs ''description'' = Some d \<and> truthy d \<and> \<not> is_container d
             \<and> detect_lang env d = Inr lang \<and> lang \<notin> {''en'', ''ar''}"
    then have "(''description'', d) \<in> set kvs" by (auto dest: map_of_SomeD)
    from for_each_concat_subset [OF added this] obtain els
      where els: "xml_field env translate kvs (''description'', d) = Inr els"
        "set els \<subseteq> set children"
      using children by auto
    from a have "xml_field env translate kvs (''description'', d) =
        Inr [Element ''description'' d [],
             Element ''description_translated'' (translate_text env d) []]"
      by (simp add: xml_field_def dict_get_def)
    with els have both: "Element ''description'' d [] \<in> set children
               \<and> Element ''description_translated'' (translate_text env d) [] \<in> set children"
      by auto
    from both show "Element ''description'' d [] \<in> set children" ..
    from both show "Element ''description_translated'' (translate_text env d) [] \<in> set children" ..
  }
qed

theorem xml_skips_nested_fields_witness:
  "xml_field demo_env True demo_fields
     (''license'', JDict [(''key'', JStr ''mit''), (''name'', JStr ''MIT License'')]) = Inr []
   \<and> xml_repository demo_env True demo_repo = Inr (Element ''repository'' JNull demo_children)
   \<and> ''license'' \<notin> tag_of ` set demo_children
   \<and> ''owner'' \<notin> tag_of ` set demo_children
   \<and> Element ''description'' (JStr ''Bonjour le monde'') [] \<in> set demo_children
   \<and> Element ''description_translated'' (JStr ''Hello world'') [] \<in> set demo_children"
proof -
  have run: "xml_repository demo_env True (JDict demo_fields)
      = Inr (Element ''repository'' JNull demo_children)"
    by code_simp
  have c: "is_container (JDict [(''key'', JStr ''mit''), (''name'', JStr ''MIT License'')])"
    by simp
  have e: "True \<and> map_of demo_fields ''description'' = Some (JStr ''Bonjour le monde'')
      \<and> truthy (JStr ''Bonjour le monde'') \<and> \<not> is_container (JStr ''Bonjour le monde'')
      \<and> detect_lang demo_env (JStr ''Bonjour le monde'') = Inr ''fr''
      \<and> ''fr'' \<notin> {''en'', ''ar''}"
    by (simp add: demo_fields_def detect_lang_def demo_env_def)
  have tr: "translate_text demo_env (JStr ''Bonjour le monde'') = JStr ''Hello world''"
    by (simp add: translate_text_def demo_env_def)
  note t = xml_skips_nested_fields
    [where k = "''license''"
       and v = "JDict [(''key'', JStr ''mit''), (''name'', JStr ''MIT License'')]"
       and env = demo_env and translate = True and kvs = demo_fields
       and t = "''repository''" and x = JNull and children = demo_children
       and d = "JStr ''Bonjour le monde''" and lang = "''fr''"]
  from t c have "xml_field demo_env True demo_fields
     (''license'', JDict [(''key'', JStr ''mit''), (''name'', JStr ''MIT License'')]) = Inr []"
    by blast
  moreover from t run e have "''license'' \<notin> tag_of ` set demo_children"
    "''owner'' \<notin> tag_of ` set demo_children"
    "Element ''description'' (JStr ''Bonjour le monde'') [] \<in> set demo_children"
    "Element ''description_translated'' (translate_text demo_env (JStr ''Bonjour le monde'')) []
       \<in> set demo_children"
    by blast+
  ultimately show ?thesis
    using run by (simp add: tr demo_repo_def)
qed

text \<open>
  C10. In the element of a record (a dict, so its keys are distinct), every child other
  than \<^verbatim>\<open>description_translated\<close> carries the text \<^verbatim>\<open>str(value)\<close> of a field of the
  record that is not skipped, under the field's key, and every such field has that child: a
  boolean gives the text \<^verbatim>\<open>True\<close> or \<^verbatim>\<open>False\<close>, and \<^verbatim>\<open>None\<close> gives the four
  characters \<^verbatim>\<open>None\<close>, not an empty element.
\<close>

theorem xml_text_is_python_str:
  assumes "xml_repository env translate (JDict kvs) = Inr (Element t x children)"
    and "distinct (map fst kvs)"
  shows "(\<forall>c\<in>set children. tag_of c = ''description_translated''
            \<or> (\<exists>k v. (k, v) \<in> set kvs \<and> k \<notin> {''owner'', ''license''} \<and> \<not> is_container v
                  \<and> c = Element k (JStr (py_str v)) []))
       \<and> ((k, v) \<in> set kvs \<and> k \<notin> {''owner'', ''license''} \<and> \<not> is_container v
           \<longrightarrow> Element k (JStr (py_str v)) [] \<in> set children)
       \<and> ((k, JBool b) \<in> set kvs \<and> k \<notin> {''owner'', ''license''}
           \<longrightarrow> Element k (JStr (if b then ''True'' else ''False'')) [] \<in> set children)
       \<and> ((k, JNull) \<in> set kvs \<and> k \<notin> {''owner'', ''license''}
           \<longrightarrow> Element k (JStr ''None'') [] \<in> set children)"
proof -
  from assms(1) obtain added where added: "for_each (xml_field env translate kvs) kvs = Inr added"
    and children: "children = concat added"
    by (blast dest: xml_repository_children)
  have all: "tag_of c = ''description_translated''
            \<or> (\<exists>k v. (k, v) \<in> set kvs \<and> k \<notin> {''owner'', ''license''} \<and> \<not> is_container v
                  \<and> c = Element k (JStr (py_str v)) [])"
    if "c \<in> set children" for c
  proof -
    from for_each_concat_member [OF added] that children
    obtain k' v' els where o: "(k', v') \<in> set kvs"
      "xml_field env translate kvs (k', v') = Inr els" "c \<in> set els" by fastforce
    from assms(2) o(1) have "map_of kvs k' = Some v'" by (rule distinct_map_of)
    from xml_field_texts [OF this o(2,3)] xml_field_tags [OF o(2,3)] o(1) show ?thesis by blast
  qed
  have emits: "Element k' (JStr (py_str v')) [] \<in> set children"
    if "(k', v') \<in> set kvs" "k' \<notin> {''owner'', ''license''}" "\<not> is_container v'" for k' v'
  proof -
    from for_each_concat_subset [OF added that(1)] obtain els
      where els: "xml_field env translate kvs (k', v') = Inr els" "set els \<subseteq> set children"
      using children by auto
    from assms(2) that(1) have "map_of kvs k' = Some v'" by (rule distinct_map_of)
    from xml_field_emits [OF this that(2,3) els(1)] els(2) show ?thesis by blast
  qed
  show ?thesis
  proof (intro conjI ballI impI)
    fix c assume "c \<in> set children"
    then show "tag_of c = ''description_translated''
            \<or> (\<exists>k v. (k, v) \<in> set kvs \<and> k \<notin> {''owner'', ''license''} \<and> \<not> is_container v
                  \<and> c = Element k (JStr (py_str v)) [])"
      by (rule all)
  next
    assume "(k, v) \<in> set kvs \<and> k \<notin> {''owner'', ''license''} \<and> \<not> is_container v"
    then show "Element k (JStr (py_str v)) [] \<in> set children"
      using emits by blast
  next
    assume "(k, JBool b) \<in> set kvs \<and> k \<notin> {''owner'', ''license''}"
    then have "Element k (JStr (py_str (JBool b))) [] \<in> set children"
      by (intro emits) simp_all
    then show "Element k (JStr (if b then ''True'' else ''False'')) [] \<in> set children"
      by simp
  next
    assume "(k, JNull) \<in> set kvs \<and> k \<notin> {''owner'', ''license''}"
    then have "Element k (JStr (py_str JNull)) [] \<in> set children"
      by (intro emits) simp_all
    then show "Element k (JStr ''None'') [] \<in> set children"
      by simp
  qed
qed

theorem xml_text_is_python_str_witness:
  "xml_repository demo_env True demo_repo = Inr (Element ''repository'' JNull demo_children)
   \<and> distinct (map fst demo_fields)
   \<and> Element ''stargazers_count'' (JStr ''42'') [] \<in> set demo_children
   \<and> Element ''private'' (JStr ''False'') [] \<in> set demo_children
   \<and> Element ''language'' (JStr ''None'') [] \<in> set demo_children"
proof -
  have run: "xml_repository demo_env True (JDict demo_fields)
      = Inr (Element ''repository'' JNull demo_children)"
    by code_simp
  have dist: "distinct (map fst demo_fields)"
    by (simp add: demo_fields_def)
  have f1: "(''stargazers_count'', JInt 42) \<in> set demo_fields
      \<and> ''stargazers_count'' \<notin> {''owner'', ''license''} \<and> \<not> is_container (JInt 42)"
    by (simp add: demo_fields_def)
  have f2: "(''private'', JBool False) \<in> set demo_fields
      \<and> ''private'' \<notin> {''owner'', ''license''}"
    by (simp add: demo_fields_def)
  have f3: "(''language'', JNull) \<in> set demo_fields
      \<and> ''language'' \<notin> {''owner'', ''license''}"
    by (simp add: demo_fields_def)
  have s42: "digits 42 = ''42''"
    by code_simp
  from xml_text_is_python_str [OF run dist, where k = "''stargazers_count''" and v = "JInt 42"] f1
  have "Element ''stargazers_count'' (JStr (py_str (JInt 42))) [] \<in> set demo_children"
    by blast
  moreover
  from xml_text_is_python_str [OF run dist, where k = "''private''" and b = False] f2
  have "Element ''private'' (JStr ''False'') [] \<in> set demo_children"
    by simp
  moreover
  from xml_text_is_python_str [OF run dist, where k = "''language''"] f3
  have "Element ''language'' (JStr ''None'') [] \<in> set demo_children"
    by blast
  ultimately show ?thesis
    using run dist by (simp add: s42 demo_repo_def)
qed

end
